theory Spec2Isabelle
  imports Complex_Main "HOL-Library.AList"
begin

section \<open>Python values, faults and the library operations the program calls\<close>

text \<open>
  The program is dynamically typed: a row of the source store, a parsed JSON text and a
  search document are all Python objects. They are embedded in one datatype of values.
  A \<open>dict\<close> with string keys is an association list in insertion order, read with
  \<open>map_of\<close>. A \<open>str\<close> is a \<open>string\<close> whose characters are read as code points
  below 256. A \<open>float\<close> is the real number it denotes, or one of the three special
  values; the program computes with no float, it only receives them from \<open>float()\<close>
  and \<open>json.loads\<close>.
\<close>

datatype pyfloat = Finite real | PosInf | NegInf | NaN

datatype pyval =
    PNone
  | PBool bool
  | PInt int
  | PFloat pyfloat
  | PStr string
  | PBytes "nat list"
  | PList "pyval list"
  | PDict "(string \<times> pyval) list"

type_synonym pydict = "(string \<times> pyval) list"

text \<open>Every \<open>raise\<close> of the program or of a library call is a value \<open>Inl e\<close>.\<close>

datatype error = KeyError | TypeError | AttributeError | ValueError | OSError

definition ebind :: "error + 'a \<Rightarrow> ('a \<Rightarrow> error + 'b) \<Rightarrow> error + 'b" where
  "ebind m f = (case m of Inl e \<Rightarrow> Inl e | Inr v \<Rightarrow> f v)"

fun map_err :: "('a \<Rightarrow> error + 'b) \<Rightarrow> 'a list \<Rightarrow> error + 'b list" where
  "map_err f [] = Inr []"
| "map_err f (x # xs) =
     (case f x of
        Inl e \<Rightarrow> Inl e
      | Inr y \<Rightarrow> (case map_err f xs of Inl e \<Rightarrow> Inl e | Inr ys \<Rightarrow> Inr (y # ys)))"

text \<open>\<open>d[key]\<close> on a dict of the program (a row, a document).\<close>

definition getitem :: "pydict \<Rightarrow> string \<Rightarrow> error + pyval" where
  "getitem d k = (case map_of d k of None \<Rightarrow> Inl KeyError | Some v \<Rightarrow> Inr v)"

text \<open>
  \<open>v[key]\<close> with a string key on any value: a dict is looked up, a sequence takes integer
  indices only, the other values are not subscriptable.
\<close>

definition subscript :: "pyval \<Rightarrow> string \<Rightarrow> error + pyval" where
  "subscript v k = (case v of PDict d \<Rightarrow> getitem d k | _ \<Rightarrow> Inl TypeError)"

text \<open>\<open>v.get(key)\<close>: only a dict has the method; a missing key gives \<open>None\<close>.\<close>

definition method_get :: "pyval \<Rightarrow> string \<Rightarrow> error + pyval" where
  "method_get v k =
     (case v of
        PDict d \<Rightarrow> (case map_of d k of None \<Rightarrow> Inr PNone | Some x \<Rightarrow> Inr x)
      | _ \<Rightarrow> Inl AttributeError)"

text \<open>\<open>for x in v\<close>: the elements of a list, the keys of a dict, the characters of a
  string, the bytes of a bytes object; anything else is not iterable.\<close>

definition py_iter :: "pyval \<Rightarrow> error + pyval list" where
  "py_iter v =
     (case v of
        PList xs \<Rightarrow> Inr xs
      | PDict d \<Rightarrow> Inr (map (\<lambda>kv. PStr (fst kv)) d)
      | PStr s \<Rightarrow> Inr (map (\<lambda>c. PStr [c]) s)
      | PBytes b \<Rightarrow> Inr (map (\<lambda>n. PInt (int n)) b)
      | _ \<Rightarrow> Inl TypeError)"

text \<open>The truth value of an object, as \<open>if v:\<close> takes it.\<close>

definition truthy :: "pyval \<Rightarrow> bool" where
  "truthy v =
     (case v of
        PNone \<Rightarrow> False
      | PBool b \<Rightarrow> b
      | PInt i \<Rightarrow> i \<noteq> 0
      | PFloat f \<Rightarrow> f \<noteq> Finite 0
      | PStr s \<Rightarrow> s \<noteq> []
      | PBytes b \<Rightarrow> b \<noteq> []
      | PList xs \<Rightarrow> xs \<noteq> []
      | PDict d \<Rightarrow> d \<noteq> [])"

subsection \<open>String methods\<close>

text \<open>\<open>s.split(sep)\<close> with a one-character separator: one more piece than there are
  separators, empty pieces kept.\<close>

fun str_split :: "char \<Rightarrow> string \<Rightarrow> string list" where
  "str_split sep [] = [[]]"
| "str_split sep (c # cs) =
     (if c = sep then [] # str_split sep cs
      else (case str_split sep cs of
              [] \<Rightarrow> [[c]]
            | w # ws \<Rightarrow> (c # w) # ws))"

text \<open>\<open>s.replace(old, new)\<close> with a one-character \<open>old\<close>.\<close>

definition str_replace :: "char \<Rightarrow> string \<Rightarrow> string \<Rightarrow> string" where
  "str_replace old new s = concat (map (\<lambda>c. if c = old then new else [c]) s)"

text \<open>\<open>str.isspace\<close> on the code points below 256, and \<open>s.strip()\<close>.\<close>

definition py_isspace :: "char \<Rightarrow> bool" where
  "py_isspace c = ((of_char c :: nat) \<in> {9, 10, 11, 12, 13, 28, 29, 30, 31, 32, 133, 160})"

definition str_strip :: "string \<Rightarrow> string" where
  "str_strip s = rev (dropWhile py_isspace (rev (dropWhile py_isspace s)))"

text \<open>\<open>sep.join(xs)\<close>.\<close>

fun str_join :: "string \<Rightarrow> string list \<Rightarrow> string" where
  "str_join sep [] = []"
| "str_join sep [x] = x"
| "str_join sep (x # y # ys) = x @ sep @ str_join sep (y # ys)"

text \<open>
  The methods called on a field of a row. The field is whatever the store returned: on a
  \<open>str\<close> the method runs, on \<open>bytes\<close> the \<open>str\<close> argument is a TypeError, any other
  value has no such attribute.
\<close>

definition method_split :: "pyval \<Rightarrow> char \<Rightarrow> error + string list" where
  "method_split v sep =
     (case v of
        PStr s \<Rightarrow> Inr (str_split sep s)
      | PBytes b \<Rightarrow> Inl TypeError
      | _ \<Rightarrow> Inl AttributeError)"

definition method_replace :: "pyval \<Rightarrow> char \<Rightarrow> string \<Rightarrow> error + string" where
  "method_replace v old new =
     (case v of
        PStr s \<Rightarrow> Inr (str_replace old new s)
      | PBytes b \<Rightarrow> Inl TypeError
      | _ \<Rightarrow> Inl AttributeError)"

definition sentinel :: string where
  "sentinel = ''N/A''"

section \<open>The Writer Directory\<close>

text \<open>
  \<open>dict_factory\<close> turns a cursor row into a dict keyed by the column names. The store
  hands it a row with one value per column of the description, so \<open>row[idx]\<close> is
  always in range.
\<close>

definition dict_factory :: "string list \<Rightarrow> pyval list \<Rightarrow> pydict" where
  "dict_factory description row =
     fold (\<lambda>(col, v) d. AList.update col v d) (zip description row) []"

text \<open>
  \<open>load_writers_names\<close>: the cursor of \<open>SELECT DISTINCT id, name FROM writers\<close> is a
  list of (id, name) rows. The id column holds text, so the directory is keyed by
  strings; the name is whatever the store holds. A later row with the same id replaces
  the earlier one.
\<close>

type_synonym directory = "string \<rightharpoonup> pyval"

definition load_writers_names :: "(string \<times> pyval) list \<Rightarrow> directory" where
  "load_writers_names cursor =
     fold (\<lambda>(wid, nm) writers.
             writers(wid \<mapsto> PDict (dict_factory [''id'', ''name''] [PStr wid, nm])))
          cursor Map.empty"

text \<open>
  \<open>writers[writer_id]\<close> with a key that came out of the parsed JSON: a list or a dict is
  unhashable; any other key that is not a string equals no key of the directory.
\<close>

definition directory_getitem :: "directory \<Rightarrow> pyval \<Rightarrow> error + pyval" where
  "directory_getitem writers k =
     (case k of
        PStr s \<Rightarrow> (case writers s of None \<Rightarrow> Inl KeyError | Some w \<Rightarrow> Inr w)
      | PList xs \<Rightarrow> Inl TypeError
      | PDict d \<Rightarrow> Inl TypeError
      | _ \<Rightarrow> Inl KeyError)"

section \<open>The row transformation\<close>

text \<open>
  The loop over the parsed writers of a row, with its two accumulators
  \<open>movie_writers\<close> and \<open>writers_set\<close>.
\<close>

fun writers_loop ::
  "directory \<Rightarrow> pyval list \<Rightarrow> pyval list \<times> pyval set \<Rightarrow> error + (pyval list \<times> pyval set)" where
  "writers_loop writers [] acc = Inr acc"
| "writers_loop writers (writer # rest) (movie_writers, writers_set) =
     (case subscript writer ''id'' of
        Inl e \<Rightarrow> Inl e
      | Inr writer_id \<Rightarrow>
          (case directory_getitem writers writer_id of
             Inl e \<Rightarrow> Inl e
           | Inr w \<Rightarrow>
               (case subscript w ''name'' of
                  Inl e \<Rightarrow> Inl e
                | Inr nm \<Rightarrow>
                    if nm \<noteq> PStr sentinel \<and> writer_id \<notin> writers_set
                    then writers_loop writers rest
                           (movie_writers @ [w], insert writer_id writers_set)
                    else writers_loop writers rest (movie_writers, writers_set))))"

text \<open>The block that builds \<open>actors\<close> and \<open>actors_names\<close>.\<close>

definition actor_dict :: "string \<times> string \<Rightarrow> pyval" where
  "actor_dict p = PDict [(''id'', PStr (fst p)), (''name'', PStr (snd p))]"

definition transform_actors :: "pydict \<Rightarrow> error + (pyval list \<times> string list)" where
  "transform_actors row =
     ebind (getitem row ''actors_ids'') (\<lambda>a_ids.
       if a_ids = PNone then Inr ([], [])
       else
     ebind (getitem row ''actors_names'') (\<lambda>a_names.
       if a_names = PNone then Inr ([], [])
       else
     ebind (method_split a_ids (CHR '','')) (\<lambda>ids.
     ebind (method_split a_names (CHR '','')) (\<lambda>names.
     ebind (method_split a_names (CHR '','')) (\<lambda>names'.
       Inr (map actor_dict (filter (\<lambda>p. snd p \<noteq> sentinel) (zip ids names)),
            filter (\<lambda>x. x \<noteq> sentinel) names'))))))"

text \<open>
  \<open>_transform_row\<close>. \<open>json.loads\<close> and \<open>float\<close> are library functions and are
  parameters of the model; each may raise. The entries of the returned dict are evaluated
  in the order in which the source writes them.
\<close>

definition transform_row ::
  "(pyval \<Rightarrow> error + pyval) \<Rightarrow> (pyval \<Rightarrow> error + pyfloat) \<Rightarrow> pydict \<Rightarrow> directory
     \<Rightarrow> error + pydict" where
  "transform_row json_loads py_float row writers =
     ebind (getitem row ''writers'') (\<lambda>ws_field.
     ebind (json_loads ws_field) (\<lambda>parsed.
     ebind (py_iter parsed) (\<lambda>ws.
     ebind (writers_loop writers ws ([], {})) (\<lambda>(movie_writers, writers_set).
     ebind (transform_actors row) (\<lambda>(actors, actors_names).
     ebind (getitem row ''id'') (\<lambda>rid.
     ebind (getitem row ''genre'') (\<lambda>g.
     ebind (method_replace g (CHR '' '') []) (\<lambda>g'.
     ebind (map_err (\<lambda>x. subscript x ''name'') movie_writers) (\<lambda>writers_names.
     ebind (getitem row ''imdb_rating'') (\<lambda>rating.
     ebind (if rating \<noteq> PStr sentinel
            then ebind (py_float rating) (\<lambda>f. Inr (PFloat f))
            else Inr PNone) (\<lambda>imdb.
     ebind (getitem row ''title'') (\<lambda>title.
     ebind (getitem row ''director'') (\<lambda>dir.
     ebind (if dir \<noteq> PStr sentinel
            then ebind (method_split dir (CHR '',''))
                   (\<lambda>ds. Inr (PList (map (\<lambda>x. PStr (str_strip x)) ds)))
            else Inr PNone) (\<lambda>director.
     ebind (getitem row ''plot'') (\<lambda>plot.
       Inr [(''id'', rid),
            (''genre'', PList (map PStr (str_split (CHR '','') g'))),
            (''writers'', PList movie_writers),
            (''actors'', PList actors),
            (''actors_names'', PList (map PStr actors_names)),
            (''writers_names'', PList writers_names),
            (''imdb_rating'', imdb),
            (''title'', title),
            (''director'', director),
            (''description'', if plot \<noteq> PStr sentinel then plot else PNone)]
     )))))))))))))))"

section \<open>The bulk indexing client\<close>

text \<open>
  \<open>_get_es_bulk_query\<close>: for every row, in order, the list of lines is extended
  by the serialized action and the serialized row. \<open>json.dumps\<close> is a parameter; it
  raises on a value it cannot serialize.
\<close>

definition index_action :: "string \<Rightarrow> pyval \<Rightarrow> pyval" where
  "index_action index_name rid =
     PDict [(''index'', PDict [(''_index'', PStr index_name), (''_id'', rid)])]"

fun bulk_query_loop ::
  "(pyval \<Rightarrow> error + string) \<Rightarrow> string \<Rightarrow> pydict list \<Rightarrow> string list \<Rightarrow> error + string list" where
  "bulk_query_loop json_dumps index_name [] prepared_query = Inr prepared_query"
| "bulk_query_loop json_dumps index_name (row # rows) prepared_query =
     (case getitem row ''id'' of
        Inl e \<Rightarrow> Inl e
      | Inr rid \<Rightarrow>
          (case json_dumps (index_action index_name rid) of
             Inl e \<Rightarrow> Inl e
           | Inr action \<Rightarrow>
               (case json_dumps (PDict row) of
                  Inl e \<Rightarrow> Inl e
                | Inr line \<Rightarrow>
                    bulk_query_loop json_dumps index_name rows
                      (prepared_query @ [action, line]))))"

definition get_es_bulk_query ::
  "(pyval \<Rightarrow> error + string) \<Rightarrow> pydict list \<Rightarrow> string \<Rightarrow> error + string list" where
  "get_es_bulk_query json_dumps rows index_name =
     bulk_query_loop json_dumps index_name rows []"

definition newline :: char where
  "newline = CHR 0x0A"

text \<open>The body of the request that \<open>load_to_es\<close> posts.\<close>

definition bulk_body ::
  "(pyval \<Rightarrow> error + string) \<Rightarrow> pydict list \<Rightarrow> string \<Rightarrow> error + string" where
  "bulk_body json_dumps records index_name =
     ebind (get_es_bulk_query json_dumps records index_name) (\<lambda>prepared_query.
       Inr (str_join [newline] prepared_query @ [newline]))"

text \<open>
  The loop over the items of the response. The log is the list of the messages handed
  to \<open>logger.error\<close>, oldest first; what was logged before a fault stays logged.
\<close>

fun items_loop :: "pyval list \<Rightarrow> pyval list \<Rightarrow> (error + unit) \<times> pyval list" where
  "items_loop [] lg = (Inr (), lg)"
| "items_loop (item # rest) lg =
     (case subscript item ''index'' of
        Inl e \<Rightarrow> (Inl e, lg)
      | Inr ix \<Rightarrow>
          (case method_get ix ''error'' of
             Inl e \<Rightarrow> (Inl e, lg)
           | Inr error_message \<Rightarrow>
               if truthy error_message
               then items_loop rest (lg @ [error_message])
               else items_loop rest lg))"

text \<open>The part of \<open>load_to_es\<close> after the request: the response content is parsed and
  its items are walked.\<close>

definition handle_response ::
  "(pyval \<Rightarrow> error + pyval) \<Rightarrow> string \<Rightarrow> pyval list \<Rightarrow> (error + unit) \<times> pyval list" where
  "handle_response json_loads content lg =
     (case ebind (json_loads (PStr content)) (\<lambda>json_response.
           ebind (subscript json_response ''items'') py_iter) of
        Inl e \<Rightarrow> (Inl e, lg)
      | Inr items \<Rightarrow> items_loop items lg)"

text \<open>
  \<open>load_to_es\<close>. The HTTP exchange (\<open>urljoin\<close>, \<open>requests.post\<close> and the decoding of
  the response content) is the parameter \<open>post_bulk\<close>, from the request body to the
  decoded content or a fault.
\<close>

definition load_to_es ::
  "(pyval \<Rightarrow> error + string) \<Rightarrow> (string \<Rightarrow> error + string) \<Rightarrow> (pyval \<Rightarrow> error + pyval)
     \<Rightarrow> pydict list \<Rightarrow> string \<Rightarrow> pyval list \<Rightarrow> (error + unit) \<times> pyval list" where
  "load_to_es json_dumps post_bulk json_loads records index_name lg =
     (case ebind (bulk_body json_dumps records index_name) post_bulk of
        Inl e \<Rightarrow> (Inl e, lg)
      | Inr content \<Rightarrow> handle_response json_loads content lg)"

section \<open>The pipeline driver and the connection\<close>

text \<open>What the run takes from outside: the library functions, the two cursors of the
  store and the HTTP exchange.\<close>

record externals =
  sqlite3_connect :: "error + unit"
  select_writers :: "error + (string \<times> pyval) list"
  select_movies :: "error + pydict list"
  json_loads :: "pyval \<Rightarrow> error + pyval"
  json_dumps :: "pyval \<Rightarrow> error + string"
  py_float :: "pyval \<Rightarrow> error + pyfloat"
  post_bulk :: "string \<Rightarrow> error + string"

record world =
  conn_open :: bool
  logged :: "pyval list"

text \<open>\<open>ETL.load\<close>.\<close>

definition load :: "externals \<Rightarrow> string \<Rightarrow> world \<Rightarrow> (error + unit) \<times> world" where
  "load ext index_name w =
     (case ebind (select_writers ext) (\<lambda>cursor.
           ebind (select_movies ext) (\<lambda>rows.
             map_err (\<lambda>row. transform_row (json_loads ext) (py_float ext) row
                               (load_writers_names cursor)) rows)) of
        Inl e \<Rightarrow> (Inl e, w)
      | Inr records \<Rightarrow>
          (case load_to_es (json_dumps ext) (post_bulk ext) (json_loads ext)
                  records index_name (logged w) of
             (r, lg) \<Rightarrow> (r, w\<lparr>logged := lg\<rparr>)))"

text \<open>
  \<open>with conn_context(db_path) as conn: body\<close>. The generator connects and yields.
  When the body returns, the generator is resumed after the \<open>yield\<close> and closes the
  connection. When the body raises, the exception is raised again inside the generator
  at the \<open>yield\<close>; the \<open>yield\<close> stands in no \<open>try\<close>, so the generator ends there and
  the exception leaves the \<open>with\<close> statement.
\<close>

definition conn_context ::
  "error + unit \<Rightarrow> (world \<Rightarrow> (error + 'a) \<times> world) \<Rightarrow> world \<Rightarrow> (error + 'a) \<times> world" where
  "conn_context connect body w =
     (case connect of
        Inl e \<Rightarrow> (Inl e, w)
      | Inr u \<Rightarrow>
          (case body (w\<lparr>conn_open := True\<rparr>) of
             (Inr v, w') \<Rightarrow> (Inr v, w'\<lparr>conn_open := False\<rparr>)
           | (Inl e, w') \<Rightarrow> (Inl e, w')))"

definition main :: "externals \<Rightarrow> world \<Rightarrow> (error + unit) \<times> world" where
  "main ext w = conn_context (sqlite3_connect ext) (load ext ''movies'') w"

section \<open>Notions of the specification\<close>

text \<open>
  Deduplication that keeps the first occurrence: of the elements with the same key, the
  earliest stays, at its place.
\<close>

fun keep_first_by :: "('a \<Rightarrow> 'k) \<Rightarrow> 'a list \<Rightarrow> 'a list" where
  "keep_first_by f [] = []"
| "keep_first_by f (x # xs) = x # keep_first_by f (filter (\<lambda>y. f y \<noteq> f x) xs)"

text \<open>
  An element \<open>w\<close> of the parsed writers array resolves to the entry \<open>(k, r, nm)\<close>: its
  id is the string \<open>k\<close>, the directory holds the record \<open>r\<close> under \<open>k\<close>, and \<open>nm\<close>
  is the name of that record.
\<close>

definition resolves :: "directory \<Rightarrow> pyval \<Rightarrow> string \<times> pyval \<times> pyval \<Rightarrow> bool" where
  "resolves writers w e =
     (case e of (k, r, nm) \<Rightarrow>
        subscript w ''id'' = Inr (PStr k) \<and> writers k = Some r \<and> subscript r ''name'' = Inr nm)"

text \<open>
  The entries that the loop keeps when it starts with the set \<open>S\<close> of ids already seen:
  those whose name is not the sentinel and whose id is not in \<open>S\<close>, first occurrence of
  each id only.
\<close>

definition kept_entries :: "pyval set \<Rightarrow> (string \<times> pyval \<times> pyval) list \<Rightarrow> (string \<times> pyval \<times> pyval) list" where
  "kept_entries S entries =
     keep_first_by fst
       (filter (\<lambda>e. snd (snd e) \<noteq> PStr sentinel \<and> PStr (fst e) \<notin> S) entries)"

section \<open>Finite fragments of the library functions, for the examples\<close>

text \<open>
  \<open>json.loads\<close> and \<open>float\<close> restricted to a finite table of texts; any other text is
  a ValueError, a value that is no text a TypeError.
\<close>

definition table_loads :: "(string \<times> pyval) list \<Rightarrow> pyval \<Rightarrow> error + pyval" where
  "table_loads t v =
     (case v of
        PStr s \<Rightarrow> (case map_of t s of None \<Rightarrow> Inl ValueError | Some x \<Rightarrow> Inr x)
      | _ \<Rightarrow> Inl TypeError)"

definition table_float :: "(string \<times> pyfloat) list \<Rightarrow> pyval \<Rightarrow> error + pyfloat" where
  "table_float t v =
     (case v of
        PStr s \<Rightarrow> (case map_of t s of None \<Rightarrow> Inl ValueError | Some x \<Rightarrow> Inr x)
      | _ \<Rightarrow> Inl TypeError)"

definition example_loads :: "pyval \<Rightarrow> error + pyval" where
  "example_loads =
     table_loads
       [(''[{\"id\": \"w1\"}]'', PList [PDict [(''id'', PStr ''w1'')]]),
        (''[{\"id\": \"w1\"}, {\"id\": \"w2\"}, {\"id\": \"w3\"}, {\"id\": \"w1\"}]'',
         PList [PDict [(''id'', PStr ''w1'')], PDict [(''id'', PStr ''w2'')],
                PDict [(''id'', PStr ''w3'')], PDict [(''id'', PStr ''w1'')]]),
        (''[{\"id\": \"w9\"}]'', PList [PDict [(''id'', PStr ''w9'')]])]"

definition example_float :: "pyval \<Rightarrow> error + pyfloat" where
  "example_float = table_float [(''7.5'', Finite 7.5)]"

definition example_directory :: directory where
  "example_directory =
     load_writers_names
       [(''w1'', PStr ''Jane Doe''), (''w2'', PStr ''N/A''), (''w3'', PStr ''John Roe'')]"

text \<open>The row of the specification's scenario, and variants of it.\<close>

definition example_row :: pydict where
  "example_row =
     [(''id'', PStr ''1''), (''genre'', PStr ''Action, Drama''),
      (''director'', PStr ''Jane Smith''), (''title'', PStr ''X''),
      (''plot'', PStr ''N/A''), (''imdb_rating'', PStr ''7.5''),
      (''actors_ids'', PStr ''a1,a2''), (''actors_names'', PStr ''Bob,N/A''),
      (''writers'', PStr ''[{\"id\": \"w1\"}]'')]"

text \<open>The row with one field replaced.\<close>

definition with_field :: "string \<Rightarrow> pyval \<Rightarrow> pydict \<Rightarrow> pydict" where
  "with_field k v row = AList.update k v row"

definition writers_text4 :: string where
  "writers_text4 = ''[{\"id\": \"w1\"}, {\"id\": \"w2\"}, {\"id\": \"w3\"}, {\"id\": \"w1\"}]''"

definition writers_array4 :: "pyval list" where
  "writers_array4 =
     [PDict [(''id'', PStr ''w1'')], PDict [(''id'', PStr ''w2'')],
      PDict [(''id'', PStr ''w3'')], PDict [(''id'', PStr ''w1'')]]"

definition example_row4 :: pydict where
  "example_row4 = with_field ''writers'' (PStr writers_text4) example_row"

definition example_doc4 :: pydict where
  "example_doc4 =
     [(''id'', PStr ''1''),
      (''genre'', PList [PStr ''Action'', PStr ''Drama'']),
      (''writers'',
       PList [PDict [(''id'', PStr ''w1''), (''name'', PStr ''Jane Doe'')],
              PDict [(''id'', PStr ''w3''), (''name'', PStr ''John Roe'')]]),
      (''actors'', PList [PDict [(''id'', PStr ''a1''), (''name'', PStr ''Bob'')]]),
      (''actors_names'', PList [PStr ''Bob'']),
      (''writers_names'', PList [PStr ''Jane Doe'', PStr ''John Roe'']),
      (''imdb_rating'', PFloat (Finite 7.5)),
      (''title'', PStr ''X''),
      (''director'', PList [PStr ''Jane Smith'']),
      (''description'', PNone)]"

text \<open>
  The reading of the specification's "strip all whitespace from the whole string": every
  character that \<open>str.isspace\<close> accepts is removed.
\<close>

definition strip_all_whitespace :: "string \<Rightarrow> string" where
  "strip_all_whitespace s = filter (\<lambda>c. \<not> py_isspace c) s"

text \<open>A field of the document of a result, if there is a document.\<close>

definition doc_field :: "error + pydict \<Rightarrow> string \<Rightarrow> pyval option" where
  "doc_field r k = (case r of Inl e \<Rightarrow> None | Inr d \<Rightarrow> map_of d k)"


definition writers_text9 :: string where
  "writers_text9 = ''[{\"id\": \"w9\"}]''"

definition example_row9 :: pydict where
  "example_row9 = with_field ''writers'' (PStr writers_text9) example_row"

definition entries4 :: "(string \<times> pyval \<times> pyval) list" where
  "entries4 =
     [(''w1'', PDict [(''id'', PStr ''w1''), (''name'', PStr ''Jane Doe'')], PStr ''Jane Doe''),
      (''w2'', PDict [(''id'', PStr ''w2''), (''name'', PStr ''N/A'')], PStr ''N/A''),
      (''w3'', PDict [(''id'', PStr ''w3''), (''name'', PStr ''John Roe'')], PStr ''John Roe''),
      (''w1'', PDict [(''id'', PStr ''w1''), (''name'', PStr ''Jane Doe'')], PStr ''Jane Doe'')]"

definition example_row_abc :: pydict where
  "example_row_abc = with_field ''imdb_rating'' (PStr ''abc'') example_row"

definition example_row_na :: pydict where
  "example_row_na =
     with_field ''director'' (PStr ''N/A'') (with_field ''imdb_rating'' (PStr ''N/A'') example_row)"

definition example_row_directors :: pydict where
  "example_row_directors = with_field ''director'' (PStr ''Name1, Name2'') example_row"

definition genre_tab :: string where
  "genre_tab = ''Action,'' @ CHR 0x09 # ''Drama''"

definition example_row_tab :: pydict where
  "example_row_tab = with_field ''genre'' (PStr genre_tab) example_row"

definition example_row_uneven :: pydict where
  "example_row_uneven =
     with_field ''actors_names'' (PStr ''Bob,N/A,Ann'')
       (with_field ''actors_ids'' (PStr ''a1'') example_row)"

definition example_row_no_actors :: pydict where
  "example_row_no_actors =
     with_field ''actors_names'' PNone (with_field ''actors_ids'' PNone example_row)"


text \<open>\<open>json.dumps\<close> restricted to a finite table of values; any other value is a TypeError.\<close>

definition table_dumps :: "(pyval \<times> string) list \<Rightarrow> pyval \<Rightarrow> error + string" where
  "table_dumps t v = (case map_of t v of None \<Rightarrow> Inl TypeError | Some s \<Rightarrow> Inr s)"

definition example_records :: "pydict list" where
  "example_records = [[(''id'', PStr ''1''), (''title'', PStr ''X'')],
                      [(''id'', PStr ''2''), (''title'', PStr ''Y'')]]"

definition example_dumps :: "pyval \<Rightarrow> error + string" where
  "example_dumps =
     table_dumps
       [(index_action ''movies'' (PStr ''1''),
         ''{\"index\": {\"_index\": \"movies\", \"_id\": \"1\"}}''),
        (PDict [(''id'', PStr ''1''), (''title'', PStr ''X'')],
         ''{\"id\": \"1\", \"title\": \"X\"}''),
        (index_action ''movies'' (PStr ''2''),
         ''{\"index\": {\"_index\": \"movies\", \"_id\": \"2\"}}''),
        (PDict [(''id'', PStr ''2''), (''title'', PStr ''Y'')],
         ''{\"id\": \"2\", \"title\": \"Y\"}'')]"

definition example_body :: string where
  "example_body =
     ''{\"index\": {\"_index\": \"movies\", \"_id\": \"1\"}}'' @ [newline] @
     ''{\"id\": \"1\", \"title\": \"X\"}'' @ [newline] @
     ''{\"index\": {\"_index\": \"movies\", \"_id\": \"2\"}}'' @ [newline] @
     ''{\"id\": \"2\", \"title\": \"Y\"}'' @ [newline]"


text \<open>The error that an item of a bulk response carries: \<open>item['index'].get('error')\<close>.\<close>

definition item_error :: "pyval \<Rightarrow> error + pyval" where
  "item_error item = ebind (subscript item ''index'') (\<lambda>ix. method_get ix ''error'')"

definition example_error :: pyval where
  "example_error =
     PDict [(''type'', PStr ''mapper_parsing_exception''), (''reason'', PStr ''failed to parse'')]"

definition example_items :: "pyval list" where
  "example_items =
     [PDict [(''index'', PDict [(''_id'', PStr ''1''), (''status'', PInt 201)])],
      PDict [(''index'', PDict [(''_id'', PStr ''2''), (''status'', PInt 400),
                                (''error'', example_error)])],
      PDict [(''index'', PDict [(''_id'', PStr ''3''), (''status'', PInt 201)])]]"

definition item_empty_error :: pyval where
  "item_empty_error = PDict [(''index'', PDict [(''_id'', PStr ''1''), (''error'', PStr [])])]"

definition response_loads :: "pyval \<Rightarrow> error + pyval" where
  "response_loads =
     table_loads
       [(''three items'', PDict [(''items'', PList example_items)]),
        (''empty error'', PDict [(''items'', PList [item_empty_error])])]"

definition post_three_items :: "string \<Rightarrow> error + string" where
  "post_three_items body = Inr ''three items''"

definition post_empty_error :: "string \<Rightarrow> error + string" where
  "post_empty_error body = Inr ''empty error''"

text \<open>
  Two runs: one whose only movie names the writer \<open>w9\<close>, which the writers table does
  not hold, and one over a store with no movie, answered by the three-item response.
\<close>

definition externals_missing_writer :: externals where
  "externals_missing_writer =
     \<lparr>sqlite3_connect = Inr (),
      select_writers = Inr [(''w1'', PStr ''Jane Doe'')],
      select_movies = Inr [example_row9],
      json_loads = example_loads,
      json_dumps = example_dumps,
      py_float = example_float,
      post_bulk = post_three_items\<rparr>"

definition externals_no_movies :: externals where
  "externals_no_movies =
     \<lparr>sqlite3_connect = Inr (),
      select_writers = Inr [(''w1'', PStr ''Jane Doe'')],
      select_movies = Inr [],
      json_loads = response_loads,
      json_dumps = example_dumps,
      py_float = example_float,
      post_bulk = post_three_items\<rparr>"

definition world0 :: world where
  "world0 = \<lparr>conn_open = False, logged = []\<rparr>"



section \<open>Unfolding the model on examples\<close>

lemmas example_defs = example_row4_def example_doc4_def with_field_def example_row_def
  example_loads_def example_float_def example_directory_def table_loads_def table_float_def
  writers_text4_def writers_array4_def load_writers_names_def dict_factory_def

lemmas model_defs = transform_row_def ebind_def getitem_def subscript_def py_iter_def
  directory_getitem_def transform_actors_def method_split_def method_replace_def
  str_replace_def str_strip_def py_isspace_def actor_dict_def sentinel_def

lemmas more_example_defs = writers_text9_def example_row9_def entries4_def example_row_abc_def
  example_row_na_def example_row_directors_def genre_tab_def example_row_tab_def
  example_row_uneven_def example_row_no_actors_def


section \<open>Properties of the string methods\<close>

lemma str_replace_space: "str_replace c [] s = filter (\<lambda>x. x \<noteq> c) s"
  by (induction s) (simp_all add: str_replace_def)

lemma str_split_nonempty: "str_split sep s \<noteq> []"
  by (induction s) (simp_all split: list.splits)

lemma str_join_split: "str_join [sep] (str_split sep s) = s"
proof (induction s)
  case Nil
  show ?case by simp
next
  case (Cons c cs)
  obtain w ws where ws: "str_split sep cs = w # ws"
    using str_split_nonempty [of sep cs] by (cases "str_split sep cs") auto
  show ?case
  proof (cases "c = sep")
    case True
    with Cons ws show ?thesis by simp
  next
    case False
    with Cons ws show ?thesis by (cases ws) simp_all
  qed
qed

lemma str_split_no_sep: "w \<in> set (str_split sep s) \<Longrightarrow> sep \<notin> set w"
proof (induction s arbitrary: w)
  case Nil
  then show ?case by simp
next
  case (Cons c cs)
  then show ?case
    by (cases "str_split sep cs") (auto split: if_splits)
qed

lemma length_str_split: "length (str_split sep s) = Suc (length (filter (\<lambda>c. c = sep) s))"
  by (induction s) (auto split: list.splits simp: str_split_nonempty)


lemma str_strip_parts:
  "\<exists>pre suf. s = pre @ str_strip s @ suf \<and> (\<forall>c \<in> set pre. py_isspace c) \<and> (\<forall>c \<in> set suf. py_isspace c)"
proof -
  let ?a = "takeWhile py_isspace s" and ?m = "dropWhile py_isspace s"
  let ?b = "takeWhile py_isspace (rev ?m)"
  have "rev ?m = ?b @ dropWhile py_isspace (rev ?m)" by simp
  then have "?m = str_strip s @ rev ?b"
    unfolding str_strip_def by (metis rev_append rev_rev_ident)
  then have "s = ?a @ str_strip s @ rev ?b"
    by (metis takeWhile_dropWhile_id)
  moreover have "\<forall>c \<in> set ?a. py_isspace c" by (auto dest: set_takeWhileD)
  moreover have "\<forall>c \<in> set (rev ?b). py_isspace c" by (auto dest: set_takeWhileD)
  ultimately show ?thesis by blast
qed

lemma str_strip_ends:
  assumes ne: "str_strip s \<noteq> []"
  shows "\<not> py_isspace (hd (str_strip s)) \<and> \<not> py_isspace (last (str_strip s))"
proof -
  define m where "m = dropWhile py_isspace s"
  define d where "d = dropWhile py_isspace (rev m)"
  have strip: "str_strip s = rev d" by (simp add: str_strip_def d_def m_def)
  have d: "d \<noteq> []" using ne strip by simp
  have "\<not> py_isspace (hd d)" unfolding d_def using d [unfolded d_def] by (rule hd_dropWhile)
  then have l: "\<not> py_isspace (last (str_strip s))"
    using d strip by (simp add: last_rev)
  have m: "m \<noteq> []" using d unfolding d_def by (cases m) simp_all
  have hm: "\<not> py_isspace (hd m)"
    unfolding m_def using m [unfolded m_def] by (rule hd_dropWhile)
  have "rev m = takeWhile py_isspace (rev m) @ d" by (simp add: d_def)
  then have "m = rev d @ rev (takeWhile py_isspace (rev m))"
    by (metis rev_append rev_rev_ident)
  then have "hd m = hd (rev d)" using d by (metis hd_append2 rev_is_Nil_conv)
  with hm l strip show ?thesis by simp
qed


section \<open>Properties of the row transformation\<close>

lemma ebind_Inr_iff: "ebind m f = Inr y \<longleftrightarrow> (\<exists>v. m = Inr v \<and> f v = Inr y)"
  by (cases m) (simp_all add: ebind_def)

lemma getitem_Inr_iff: "getitem d k = Inr v \<longleftrightarrow> map_of d k = Some v"
  by (simp add: getitem_def split: option.splits)

lemma directory_getitem_Inr_iff:
  "directory_getitem writers k = Inr r \<longleftrightarrow> (\<exists>s. k = PStr s \<and> writers s = Some r)"
  by (cases k) (auto simp: directory_getitem_def split: option.splits)

lemma directory_getitem_absent:
  "k \<notin> PStr ` dom writers \<Longrightarrow> \<exists>e. directory_getitem writers k = Inl e"
  by (cases "directory_getitem writers k") (auto simp: directory_getitem_Inr_iff)

lemma resolves_functional:
  "resolves writers w e \<Longrightarrow> resolves writers w e' \<Longrightarrow> e = e'"
  by (cases e; cases e') (auto simp: resolves_def)

lemma writers_loop_Inr_resolves:
  "writers_loop writers ws acc = Inr res \<Longrightarrow> \<exists>entries. list_all2 (resolves writers) ws entries"
proof (induction ws arbitrary: acc)
  case Nil
  then show ?case by simp
next
  case (Cons w ws)
  obtain mw S where acc: "acc = (mw, S)" by (cases acc)
  from Cons.prems obtain wid r nm acc' where
    step: "subscript w ''id'' = Inr wid" "directory_getitem writers wid = Inr r"
      "subscript r ''name'' = Inr nm" and rest: "writers_loop writers ws acc' = Inr res"
    unfolding acc by (auto split: sum.splits if_splits)
  from step obtain k where "resolves writers w (k, r, nm)"
    by (auto simp: resolves_def directory_getitem_Inr_iff)
  moreover from Cons.IH [OF rest] obtain entries where "list_all2 (resolves writers) ws entries" ..
  ultimately have "list_all2 (resolves writers) (w # ws) ((k, r, nm) # entries)" by simp
  then show ?case ..
qed

lemma kept_entries_Nil: "kept_entries S [] = []"
  by (simp add: kept_entries_def)

lemma kept_entries_skip:
  "\<not> (nm \<noteq> PStr sentinel \<and> PStr k \<notin> S) \<Longrightarrow>
   kept_entries S ((k, r, nm) # entries) = kept_entries S entries"
  by (auto simp add: kept_entries_def)

lemma kept_entries_take:
  assumes "nm \<noteq> PStr sentinel" "PStr k \<notin> S"
  shows "kept_entries S ((k, r, nm) # entries) = (k, r, nm) # kept_entries (insert (PStr k) S) entries"
proof -
  have "filter (\<lambda>y. fst y \<noteq> fst (k, r, nm))
          (filter (\<lambda>e. snd (snd e) \<noteq> PStr sentinel \<and> PStr (fst e) \<notin> S) entries)
      = filter (\<lambda>e. snd (snd e) \<noteq> PStr sentinel \<and> PStr (fst e) \<notin> insert (PStr k) S) entries"
    by (induction entries) auto
  with assms show ?thesis by (simp add: kept_entries_def)
qed

lemma writers_loop_resolved:
  "list_all2 (resolves writers) ws entries \<Longrightarrow>
   \<exists>S'. writers_loop writers ws (mw, S) =
     Inr (mw @ map (\<lambda>e. fst (snd e)) (kept_entries S entries), S')"
proof (induction ws entries arbitrary: mw S rule: list_all2_induct)
  case Nil
  show ?case by (simp add: kept_entries_Nil)
next
  case (Cons w ws e entries)
  obtain k r nm where e: "e = (k, r, nm)" by (cases e)
  from Cons.hyps(1) have step: "subscript w ''id'' = Inr (PStr k)"
    "directory_getitem writers (PStr k) = Inr r" "subscript r ''name'' = Inr nm"
    by (simp_all add: e resolves_def directory_getitem_Inr_iff)
  show ?case
  proof (cases "nm \<noteq> PStr sentinel \<and> PStr k \<notin> S")
    case True
    then have "writers_loop writers (w # ws) (mw, S)
        = writers_loop writers ws (mw @ [r], insert (PStr k) S)"
      by (simp add: step)
    moreover from Cons.IH [of "mw @ [r]" "insert (PStr k) S"] obtain S' where
      "writers_loop writers ws (mw @ [r], insert (PStr k) S)
        = Inr ((mw @ [r]) @ map (\<lambda>e. fst (snd e)) (kept_entries (insert (PStr k) S) entries), S')"
      by blast
    ultimately show ?thesis using True by (simp add: e kept_entries_take)
  next
    case False
    then have "writers_loop writers (w # ws) (mw, S) = writers_loop writers ws (mw, S)"
      by (auto simp add: step)
    moreover from Cons.IH [of mw S] obtain S' where
      "writers_loop writers ws (mw, S)
        = Inr (mw @ map (\<lambda>e. fst (snd e)) (kept_entries S entries), S')"
      by blast
    ultimately show ?thesis using False by (simp add: e kept_entries_skip)
  qed
qed

lemma keep_first_by_set: "set (keep_first_by f xs) \<subseteq> set xs"
proof (induction f xs rule: keep_first_by.induct)
  case (1 f)
  show ?case by simp
next
  case (2 f x xs)
  then show ?case by auto
qed

lemma keep_first_by_keys: "f ` set (keep_first_by f xs) = f ` set xs"
proof (induction f xs rule: keep_first_by.induct)
  case (1 f)
  show ?case by simp
next
  case (2 f x xs)
  have "f ` set (x # xs) = insert (f x) (f ` set (filter (\<lambda>y. f y \<noteq> f x) xs))" by auto
  with 2 show ?case by simp
qed

lemma keep_first_by_distinct: "distinct (map f (keep_first_by f xs))"
proof (induction f xs rule: keep_first_by.induct)
  case (1 f)
  show ?case by simp
next
  case (2 f x xs)
  have "f x \<notin> f ` set (filter (\<lambda>y. f y \<noteq> f x) xs)" by auto
  then have "f x \<notin> f ` set (keep_first_by f (filter (\<lambda>y. f y \<noteq> f x) xs))"
    by (simp add: keep_first_by_keys)
  with 2 show ?case by simp
qed

lemma keep_first_by_distinct_id: "distinct (map f xs) \<Longrightarrow> keep_first_by f xs = xs"
proof (induction f xs rule: keep_first_by.induct)
  case (1 f)
  show ?case by simp
next
  case (2 f x xs)
  from "2.prems" have "f x \<notin> f ` set xs" by simp
  then have "\<forall>y \<in> set xs. f y \<noteq> f x" by (metis imageI)
  then have "filter (\<lambda>y. f y \<noteq> f x) xs = xs"
    by (simp add: filter_id_conv)
  with 2 show ?case by simp
qed


lemma transform_row_Inr:
  assumes "transform_row L F row writers = Inr doc"
  obtains field parsed ws movie_writers writers_set actors actors_names rid g g'
    writers_names rating imdb title dir director plot
  where "map_of row ''writers'' = Some field" "L field = Inr parsed" "py_iter parsed = Inr ws"
    "writers_loop writers ws ([], {}) = Inr (movie_writers, writers_set)"
    "transform_actors row = Inr (actors, actors_names)"
    "map_of row ''id'' = Some rid" "map_of row ''genre'' = Some g"
    "method_replace g (CHR '' '') [] = Inr g'"
    "map_err (\<lambda>x. subscript x ''name'') movie_writers = Inr writers_names"
    "map_of row ''imdb_rating'' = Some rating"
    "(if rating \<noteq> PStr sentinel then ebind (F rating) (\<lambda>f. Inr (PFloat f)) else Inr PNone) = Inr imdb"
    "map_of row ''title'' = Some title" "map_of row ''director'' = Some dir"
    "(if dir \<noteq> PStr sentinel
      then ebind (method_split dir (CHR '','')) (\<lambda>ds. Inr (PList (map (\<lambda>x. PStr (str_strip x)) ds)))
      else Inr PNone) = Inr director"
    "map_of row ''plot'' = Some plot"
    "doc = [(''id'', rid),
            (''genre'', PList (map PStr (str_split (CHR '','') g'))),
            (''writers'', PList movie_writers),
            (''actors'', PList actors),
            (''actors_names'', PList (map PStr actors_names)),
            (''writers_names'', PList writers_names),
            (''imdb_rating'', imdb),
            (''title'', title),
            (''director'', director),
            (''description'', if plot \<noteq> PStr sentinel then plot else PNone)]"
  using assms unfolding transform_row_def ebind_Inr_iff getitem_Inr_iff
  by (auto simp only: split_paired_all prod.case ebind_Inr_iff getitem_Inr_iff sum.inject)


lemma map_err_Inr_iff: "map_err f xs = Inr ys \<longleftrightarrow> map f xs = map Inr ys"
proof (induction xs arbitrary: ys)
  case Nil
  show ?case by auto
next
  case (Cons x xs)
  show ?case
  proof (cases "f x")
    case (Inl e)
    then show ?thesis by (cases ys) auto
  next
    case (Inr y)
    show ?thesis
    proof (cases "map_err f xs")
      case (Inl e)
      with Inr Cons.IH show ?thesis by (cases ys) auto
    next
      case inr: (Inr zs)
      with Inr Cons.IH [of zs] Cons.IH show ?thesis by (cases ys) auto
    qed
  qed
qed

lemma sum_not_Inr: "(\<forall>y. m \<noteq> Inr y) \<Longrightarrow> \<exists>e. m = Inl e"
  by (cases m) auto

lemma load_writers_names_id:
  "load_writers_names cursor k = Some r \<Longrightarrow> subscript r ''id'' = Inr (PStr k)"
proof -
  have gen: "fold (\<lambda>(wid, nm) writers.
             writers(wid \<mapsto> PDict (dict_factory [''id'', ''name''] [PStr wid, nm]))) cursor m k = Some r
     \<Longrightarrow> (\<And>k r. m k = Some r \<Longrightarrow> subscript r ''id'' = Inr (PStr k))
     \<Longrightarrow> subscript r ''id'' = Inr (PStr k)" for m
  proof (induction cursor arbitrary: m)
    case Nil
    then show ?case by simp
  next
    case (Cons row cursor)
    obtain wid nm where row: "row = (wid, nm)" by (cases row)
    show ?case
    proof (rule Cons.IH)
      show "fold (\<lambda>(wid, nm) writers.
             writers(wid \<mapsto> PDict (dict_factory [''id'', ''name''] [PStr wid, nm]))) cursor
             (m(wid \<mapsto> PDict (dict_factory [''id'', ''name''] [PStr wid, nm]))) k = Some r"
        using Cons.prems(1) by (simp only: row fold.simps comp_apply prod.case)
    next
      fix k' r'
      assume "(m(wid \<mapsto> PDict (dict_factory [''id'', ''name''] [PStr wid, nm]))) k' = Some r'"
      then show "subscript r' ''id'' = Inr (PStr k')"
        using Cons.prems(2) [of k' r']
        by (auto simp: subscript_def getitem_def dict_factory_def split: if_splits)
    qed
  qed
  assume "load_writers_names cursor k = Some r"
  then show ?thesis unfolding load_writers_names_def by (rule gen) simp
qed

subsection \<open>Writers\<close>

text \<open>
  C3. Let the row have a document, and let its writers field parse to a JSON array
  \<open>ws\<close>. Then every element of \<open>ws\<close> resolves in the directory, to the entries
  \<open>entries\<close> in the order of \<open>ws\<close>. The document's \<open>writers\<close> are the records of
  the entries whose name is not the sentinel, one per writer id, the first occurrence kept
  at its place; \<open>writers_names\<close> is the list of the \<open>name\<close> fields of exactly these
  records, in the same order; no writer id occurs twice, and where the directory files
  every record under its own id (as \<open>load_writers_names\<close> does) the \<open>id\<close> fields of
  the records are distinct.
\<close>
theorem writers_deduplicated_first_occurrence:
  assumes tr: "transform_row L F row writers = Inr doc"
    and field: "map_of row ''writers'' = Some field"
    and arr: "L field = Inr (PList ws)"
  shows "\<exists>entries kept.
           list_all2 (resolves writers) ws entries
         \<and> kept = keep_first_by fst (filter (\<lambda>e. snd (snd e) \<noteq> PStr sentinel) entries)
         \<and> map_of doc ''writers'' = Some (PList (map (\<lambda>e. fst (snd e)) kept))
         \<and> map_of doc ''writers_names'' = Some (PList (map (\<lambda>e. snd (snd e)) kept))
         \<and> map (\<lambda>r. subscript r ''name'') (map (\<lambda>e. fst (snd e)) kept)
             = map (\<lambda>e. Inr (snd (snd e))) kept
         \<and> distinct (map fst kept)
         \<and> (\<forall>e \<in> set kept. snd (snd e) \<noteq> PStr sentinel)
         \<and> ((\<forall>k r. writers k = Some r \<longrightarrow> subscript r ''id'' = Inr (PStr k))
              \<longrightarrow> distinct (map (\<lambda>e. subscript (fst (snd e)) ''id'') kept))"
proof -
  from tr obtain field' parsed ws' mw S names where
    f': "map_of row ''writers'' = Some field'" and p: "L field' = Inr parsed"
    and it: "py_iter parsed = Inr ws'"
    and loop: "writers_loop writers ws' ([], {}) = Inr (mw, S)"
    and names: "map_err (\<lambda>x. subscript x ''name'') mw = Inr names"
    and dw: "map_of doc ''writers'' = Some (PList mw)"
    and dn: "map_of doc ''writers_names'' = Some (PList names)"
    by (rule transform_row_Inr) simp
  from f' field p arr it have ws': "ws' = ws" by (simp add: py_iter_def)
  from writers_loop_Inr_resolves [OF loop] obtain entries where
    ent: "list_all2 (resolves writers) ws entries" unfolding ws' ..
  define kept where "kept = keep_first_by fst (filter (\<lambda>e. snd (snd e) \<noteq> PStr sentinel) entries)"
  from writers_loop_resolved [OF ent, of "[]" "{}"] loop
  have mw: "mw = map (\<lambda>e. fst (snd e)) kept"
    by (auto simp: ws' kept_entries_def kept_def)
  have sub: "set kept \<subseteq> set (filter (\<lambda>e. snd (snd e) \<noteq> PStr sentinel) entries)"
    unfolding kept_def by (rule keep_first_by_set)
  have res: "\<exists>w. resolves writers w e" if "e \<in> set kept" for e
  proof -
    from that sub have "e \<in> set entries" by auto
    with ent show ?thesis by (metis in_set_conv_nth list_all2_conv_all_nth)
  qed
  have nm: "map (\<lambda>r. subscript r ''name'') (map (\<lambda>e. fst (snd e)) kept)
             = map (\<lambda>e. Inr (snd (snd e))) kept"
  proof (simp, intro ballI)
    fix e assume "e \<in> set kept"
    from res [OF this] show "subscript (fst (snd e)) ''name'' = Inr (snd (snd e))"
      by (cases e) (auto simp: resolves_def)
  qed
  from names have a: "map (\<lambda>r. subscript r ''name'') (map (\<lambda>e. fst (snd e)) kept) = map Inr names"
    by (simp only: map_err_Inr_iff mw)
  have "map (\<lambda>e. Inr (snd (snd e))) kept = map (Inr :: pyval \<Rightarrow> error + pyval) names"
    using nm [symmetric] a by (rule trans)
  then have "map Inr (map (\<lambda>e. snd (snd e)) kept) = map (Inr :: pyval \<Rightarrow> error + pyval) names"
    by (simp only: map_map comp_def)
  then have names_eq: "names = map (\<lambda>e. snd (snd e)) kept"
    by (simp only: inj_map_eq_map [OF inj_Inr])
  have dist: "distinct (map fst kept)" unfolding kept_def by (rule keep_first_by_distinct)
  have ids: "distinct (map (\<lambda>e. subscript (fst (snd e)) ''id'') kept)"
    if ok: "\<forall>k r. writers k = Some r \<longrightarrow> subscript r ''id'' = Inr (PStr k)"
  proof -
    have "map (\<lambda>e. subscript (fst (snd e)) ''id'') kept = map (\<lambda>e. Inr (PStr (fst e))) kept"
    proof (simp, intro ballI)
      fix e assume "e \<in> set kept"
      from res [OF this] ok show "subscript (fst (snd e)) ''id'' = Inr (PStr (fst e))"
        by (cases e) (auto simp: resolves_def)
    qed
    also have "\<dots> = map (\<lambda>k. Inr (PStr k)) (map fst kept)" by (simp add: comp_def)
    finally show ?thesis using dist by (simp add: distinct_map inj_on_def)
  qed
  have nos: "\<forall>e \<in> set kept. snd (snd e) \<noteq> PStr sentinel" using sub by auto
  show ?thesis
  proof (intro exI conjI)
    show "list_all2 (resolves writers) ws entries" by (rule ent)
    show "kept = keep_first_by fst (filter (\<lambda>e. snd (snd e) \<noteq> PStr sentinel) entries)"
      by (rule kept_def)
    show "map_of doc ''writers'' = Some (PList (map (\<lambda>e. fst (snd e)) kept))"
      using dw by (simp only: mw)
    show "map_of doc ''writers_names'' = Some (PList (map (\<lambda>e. snd (snd e)) kept))"
      using dn by (simp only: names_eq)
    show "map (\<lambda>r. subscript r ''name'') (map (\<lambda>e. fst (snd e)) kept)
            = map (\<lambda>e. Inr (snd (snd e))) kept" by (rule nm)
    show "distinct (map fst kept)" by (rule dist)
    show "\<forall>e \<in> set kept. snd (snd e) \<noteq> PStr sentinel" by (rule nos)
    show "(\<forall>k r. writers k = Some r \<longrightarrow> subscript r ''id'' = Inr (PStr k))
              \<longrightarrow> distinct (map (\<lambda>e. subscript (fst (snd e)) ''id'') kept)"
      using ids by (rule impI)
  qed
qed


theorem writers_deduplicated_witness:
  "transform_row example_loads example_float example_row4 example_directory = Inr example_doc4
   \<and> map_of example_row4 ''writers'' = Some (PStr writers_text4)
   \<and> example_loads (PStr writers_text4) = Inr (PList writers_array4)
   \<and> (\<exists>entries kept.
           list_all2 (resolves example_directory) writers_array4 entries
         \<and> kept = keep_first_by fst (filter (\<lambda>e. snd (snd e) \<noteq> PStr sentinel) entries)
         \<and> map_of example_doc4 ''writers'' = Some (PList (map (\<lambda>e. fst (snd e)) kept))
         \<and> map_of example_doc4 ''writers_names'' = Some (PList (map (\<lambda>e. snd (snd e)) kept))
         \<and> map (\<lambda>r. subscript r ''name'') (map (\<lambda>e. fst (snd e)) kept)
             = map (\<lambda>e. Inr (snd (snd e))) kept
         \<and> distinct (map fst kept)
         \<and> (\<forall>e \<in> set kept. snd (snd e) \<noteq> PStr sentinel)
         \<and> ((\<forall>k r. example_directory k = Some r \<longrightarrow> subscript r ''id'' = Inr (PStr k))
              \<longrightarrow> distinct (map (\<lambda>e. subscript (fst (snd e)) ''id'') kept)))"
proof -
  have tr: "transform_row example_loads example_float example_row4 example_directory
              = Inr example_doc4"
    by (simp add: example_defs model_defs)
  have f: "map_of example_row4 ''writers'' = Some (PStr writers_text4)"
    by (simp add: example_defs)
  have a: "example_loads (PStr writers_text4) = Inr (PList writers_array4)"
    by (simp add: example_defs)
  show ?thesis
    using tr f a writers_deduplicated_first_occurrence [OF tr f a] by (intro conjI)
qed


lemma sum_cases_fault: "(\<And>y. m = Inr y \<Longrightarrow> False) \<Longrightarrow> \<exists>e. m = Inl e"
  by (cases m) auto

lemma method_split_Inr_iff:
  "method_split v sep = Inr xs \<longleftrightarrow> (\<exists>s. v = PStr s \<and> xs = str_split sep s)"
  by (cases v) (auto simp: method_split_def)

lemma method_replace_Inr_iff:
  "method_replace v old new = Inr t \<longleftrightarrow> (\<exists>s. v = PStr s \<and> t = str_replace old new s)"
  by (cases v) (auto simp: method_replace_def)

subsection \<open>A writer id that the directory does not hold\<close>

text \<open>
  C2. Let the writers field of the row parse to a value that iterates as \<open>ws\<close>. If some
  element of \<open>ws\<close> carries an id that is no key of the directory, \<open>_transform_row\<close>
  raises: the lookup \<open>writers[writer_id]\<close> is made for every element, before the name is
  looked at. If every element resolves in the directory, the loop raises nothing, and no
  record whose name is the sentinel is among the writers it collects.
\<close>
theorem absent_writer_id_is_a_fault:
  assumes field: "map_of row ''writers'' = Some field"
    and parsed: "L field = Inr parsed"
    and iter: "py_iter parsed = Inr ws"
  shows "((\<exists>w \<in> set ws. \<exists>k. subscript w ''id'' = Inr k \<and> k \<notin> PStr ` dom writers)
            \<longrightarrow> (\<exists>e. transform_row L F row writers = Inl e))
       \<and> (\<forall>entries. list_all2 (resolves writers) ws entries
            \<longrightarrow> (\<exists>movie_writers S.
                   writers_loop writers ws ([], {}) = Inr (movie_writers, S)
                 \<and> (\<forall>r \<in> set movie_writers. subscript r ''name'' \<noteq> Inr (PStr sentinel))
                 \<and> length movie_writers
                     \<le> length (filter (\<lambda>e. snd (snd e) \<noteq> PStr sentinel) entries)))"
proof (intro conjI impI allI)
  assume "\<exists>w \<in> set ws. \<exists>k. subscript w ''id'' = Inr k \<and> k \<notin> PStr ` dom writers"
  then obtain w k where w: "w \<in> set ws" and k: "subscript w ''id'' = Inr k"
    and absent: "k \<notin> PStr ` dom writers" by blast
  show "\<exists>e. transform_row L F row writers = Inl e"
  proof (rule sum_cases_fault)
    fix doc assume "transform_row L F row writers = Inr doc"
    then obtain field' parsed' ws' mw S where
      "map_of row ''writers'' = Some field'" "L field' = Inr parsed'" "py_iter parsed' = Inr ws'"
      and loop: "writers_loop writers ws' ([], {}) = Inr (mw, S)"
      by (rule transform_row_Inr)
    with field parsed iter have "ws' = ws" by simp
    with writers_loop_Inr_resolves [OF loop] obtain entries where
      "list_all2 (resolves writers) ws entries" by blast
    with w obtain e where "resolves writers w e"
      by (metis in_set_conv_nth list_all2_conv_all_nth)
    with k have "k \<in> PStr ` dom writers"
      by (cases e) (auto simp: resolves_def)
    with absent show False by simp
  qed
next
  fix entries assume ent: "list_all2 (resolves writers) ws entries"
  define kept where "kept = kept_entries {} entries"
  from writers_loop_resolved [OF ent, of "[]" "{}"] obtain S where
    loop: "writers_loop writers ws ([], {}) = Inr (map (\<lambda>e. fst (snd e)) kept, S)"
    by (auto simp: kept_def)
  have sub: "set kept \<subseteq> set (filter (\<lambda>e. snd (snd e) \<noteq> PStr sentinel) entries)"
    unfolding kept_def kept_entries_def using keep_first_by_set by fastforce
  have names: "subscript r ''name'' \<noteq> Inr (PStr sentinel)" if "r \<in> set (map (\<lambda>e. fst (snd e)) kept)" for r
  proof -
    from that obtain e where e: "e \<in> set kept" "r = fst (snd e)" by auto
    with sub have "e \<in> set entries" "snd (snd e) \<noteq> PStr sentinel" by auto
    with ent obtain w where "resolves writers w e"
      by (metis in_set_conv_nth list_all2_conv_all_nth)
    with e \<open>snd (snd e) \<noteq> PStr sentinel\<close> show ?thesis
      by (cases e) (auto simp: resolves_def)
  qed
  have "distinct (map fst kept)"
    unfolding kept_def kept_entries_def by (rule keep_first_by_distinct)
  then have "distinct kept" by (simp add: distinct_map)
  then have "length kept = card (set kept)" by (simp add: distinct_card)
  also have "\<dots> \<le> card (set (filter (\<lambda>e. snd (snd e) \<noteq> PStr sentinel) entries))"
    using sub by (simp add: card_mono)
  also have "\<dots> \<le> length (filter (\<lambda>e. snd (snd e) \<noteq> PStr sentinel) entries)"
    by (rule card_length)
  finally have "length kept \<le> length (filter (\<lambda>e. snd (snd e) \<noteq> PStr sentinel) entries)" .
  with loop names
  show "\<exists>movie_writers S.
          writers_loop writers ws ([], {}) = Inr (movie_writers, S)
        \<and> (\<forall>r \<in> set movie_writers. subscript r ''name'' \<noteq> Inr (PStr sentinel))
        \<and> length movie_writers \<le> length (filter (\<lambda>e. snd (snd e) \<noteq> PStr sentinel) entries)"
    by (intro exI [of _ "map (\<lambda>e. fst (snd e)) kept"] exI [of _ S]) simp
qed

theorem absent_writer_id_witness:
  "map_of example_row9 ''writers'' = Some (PStr writers_text9)
   \<and> example_loads (PStr writers_text9) = Inr (PList [PDict [(''id'', PStr ''w9'')]])
   \<and> PStr ''w9'' \<notin> PStr ` dom example_directory
   \<and> (\<exists>e. transform_row example_loads example_float example_row9 example_directory = Inl e)
   \<and> list_all2 (resolves example_directory) writers_array4 entries4
   \<and> (\<exists>movie_writers S.
         writers_loop example_directory writers_array4 ([], {}) = Inr (movie_writers, S)
       \<and> (\<forall>r \<in> set movie_writers. subscript r ''name'' \<noteq> Inr (PStr sentinel))
       \<and> length movie_writers
           \<le> length (filter (\<lambda>e. snd (snd e) \<noteq> PStr sentinel) entries4))"
proof -
  have f: "map_of example_row9 ''writers'' = Some (PStr writers_text9)"
    by (simp add: example_defs more_example_defs)
  have p: "example_loads (PStr writers_text9) = Inr (PList [PDict [(''id'', PStr ''w9'')]])"
    by (simp add: example_defs more_example_defs)
  have it: "py_iter (PList [PDict [(''id'', PStr ''w9'')]]) = Inr [PDict [(''id'', PStr ''w9'')]]"
    by (simp add: py_iter_def)
  have "example_directory ''w9'' = None" by (simp add: example_defs)
  then have absent: "PStr ''w9'' \<notin> PStr ` dom example_directory" by (auto simp: dom_def)
  then have bad: "\<exists>w \<in> set [PDict [(''id'', PStr ''w9'')]].
           \<exists>k. subscript w ''id'' = Inr k \<and> k \<notin> PStr ` dom example_directory"
    by (simp add: subscript_def getitem_def)
  from absent_writer_id_is_a_fault [where L = example_loads and F = example_float
      and writers = example_directory, OF f p it] bad
  have fault: "\<exists>e. transform_row example_loads example_float example_row9 example_directory = Inl e"
    by (elim conjE) (erule mp)
  have f4: "map_of example_row4 ''writers'' = Some (PStr writers_text4)"
    by (simp add: example_defs)
  have p4: "example_loads (PStr writers_text4) = Inr (PList writers_array4)"
    by (simp add: example_defs)
  have it4: "py_iter (PList writers_array4) = Inr writers_array4" by (simp add: py_iter_def)
  have ent: "list_all2 (resolves example_directory) writers_array4 entries4"
    by (simp add: resolves_def example_defs more_example_defs subscript_def getitem_def)
  from absent_writer_id_is_a_fault [where L = example_loads and F = example_float
      and writers = example_directory, OF f4 p4 it4] ent
  have ok: "\<exists>movie_writers S.
         writers_loop example_directory writers_array4 ([], {}) = Inr (movie_writers, S)
       \<and> (\<forall>r \<in> set movie_writers. subscript r ''name'' \<noteq> Inr (PStr sentinel))
       \<and> length movie_writers
           \<le> length (filter (\<lambda>e. snd (snd e) \<noteq> PStr sentinel) entries4)"
    by (elim conjE) (erule allE, erule mp)
  show ?thesis using f p absent fault ent ok by (intro conjI)
qed

subsection \<open>The rating\<close>

text \<open>
  C6. Let the rating of the row be a string other than the sentinel. If \<open>float\<close> raises
  on it, \<open>_transform_row\<close> raises and there is no document. If there is a document, then
  \<open>float\<close> returned a number for the string and the document's \<open>imdb_rating\<close> is that
  number.
\<close>
theorem rating_parse_fault_propagates:
  assumes rating: "map_of row ''imdb_rating'' = Some (PStr s)" and ns: "s \<noteq> sentinel"
  shows "(\<forall>e. F (PStr s) = Inl e \<longrightarrow> (\<exists>e'. transform_row L F row writers = Inl e'))
       \<and> (\<forall>doc. transform_row L F row writers = Inr doc
            \<longrightarrow> (\<exists>f. F (PStr s) = Inr f \<and> map_of doc ''imdb_rating'' = Some (PFloat f)))"
proof -
  have ok: "\<exists>f. F (PStr s) = Inr f \<and> map_of doc ''imdb_rating'' = Some (PFloat f)"
    if "transform_row L F row writers = Inr doc" for doc
  proof -
    from that obtain rating' imdb where
      r: "map_of row ''imdb_rating'' = Some rating'"
      and i: "(if rating' \<noteq> PStr sentinel then ebind (F rating') (\<lambda>f. Inr (PFloat f)) else Inr PNone)
               = Inr imdb"
      and d: "map_of doc ''imdb_rating'' = Some imdb"
      by (rule transform_row_Inr) simp
    from r rating have "rating' = PStr s" by simp
    with i ns obtain f where "F (PStr s) = Inr f" "imdb = PFloat f"
      by (auto simp: ebind_Inr_iff)
    with d show ?thesis by simp
  qed
  show ?thesis
  proof (intro conjI allI impI)
    fix e assume e: "F (PStr s) = Inl e"
    show "\<exists>e'. transform_row L F row writers = Inl e'"
    proof (rule sum_cases_fault)
      fix doc assume "transform_row L F row writers = Inr doc"
      from ok [OF this] e show False by simp
    qed
  next
    fix doc assume "transform_row L F row writers = Inr doc"
    then show "\<exists>f. F (PStr s) = Inr f \<and> map_of doc ''imdb_rating'' = Some (PFloat f)" by (rule ok)
  qed
qed

theorem rating_parse_fault_witness:
  "map_of example_row_abc ''imdb_rating'' = Some (PStr ''abc'')
   \<and> ''abc'' \<noteq> sentinel
   \<and> example_float (PStr ''abc'') = Inl ValueError
   \<and> (\<exists>e'. transform_row example_loads example_float example_row_abc example_directory = Inl e')
   \<and> map_of example_row ''imdb_rating'' = Some (PStr ''7.5'')
   \<and> (\<exists>doc f. transform_row example_loads example_float example_row example_directory = Inr doc
         \<and> example_float (PStr ''7.5'') = Inr f
         \<and> map_of doc ''imdb_rating'' = Some (PFloat f))"
proof -
  have r: "map_of example_row_abc ''imdb_rating'' = Some (PStr ''abc'')"
    by (simp add: example_defs more_example_defs)
  have ns: "''abc'' \<noteq> sentinel" by (simp add: sentinel_def)
  have fl: "example_float (PStr ''abc'') = Inl ValueError" by (simp add: example_defs)
  from rating_parse_fault_propagates [where L = example_loads and F = example_float
      and writers = example_directory, OF r ns] fl
  have fault: "\<exists>e'. transform_row example_loads example_float example_row_abc example_directory
                 = Inl e'"
    by (elim conjE) (erule allE, erule mp)
  have r2: "map_of example_row ''imdb_rating'' = Some (PStr ''7.5'')"
    by (simp add: example_defs)
  have ns2: "''7.5'' \<noteq> sentinel" by (simp add: sentinel_def)
  obtain doc where
    tr: "transform_row example_loads example_float example_row example_directory = Inr doc"
    by (simp add: example_defs model_defs)
  from rating_parse_fault_propagates [where L = example_loads and F = example_float
      and writers = example_directory, OF r2 ns2] tr
  have "\<exists>f. example_float (PStr ''7.5'') = Inr f \<and> map_of doc ''imdb_rating'' = Some (PFloat f)"
    by (elim conjE) (erule allE, erule mp)
  with tr have parsed: "\<exists>doc f.
      transform_row example_loads example_float example_row example_directory = Inr doc
         \<and> example_float (PStr ''7.5'') = Inr f
         \<and> map_of doc ''imdb_rating'' = Some (PFloat f)"
    by (elim exE conjE) (intro exI conjI)
  show ?thesis using r ns fl fault r2 parsed by (intro conjI)
qed

subsection \<open>The sentinel in the scalar fields\<close>

text \<open>
  C5. In the document of a row, a rating equal to the sentinel gives \<open>imdb_rating\<close>
  null, a plot equal to the sentinel gives \<open>description\<close> null and a director equal to
  the sentinel gives \<open>director\<close> null; none of the three fields of the document is ever
  the sentinel string. A director string other than the sentinel gives the list of its
  pieces between commas, each stripped of leading and trailing whitespace
  (\<open>str_strip_parts\<close> and \<open>str_strip_ends\<close> say what stripping does).
\<close>
theorem sentinel_scalars_become_null:
  assumes tr: "transform_row L F row writers = Inr doc"
  shows "(map_of row ''imdb_rating'' = Some (PStr sentinel) \<longrightarrow> map_of doc ''imdb_rating'' = Some PNone)
       \<and> (map_of row ''plot'' = Some (PStr sentinel) \<longrightarrow> map_of doc ''description'' = Some PNone)
       \<and> (map_of row ''director'' = Some (PStr sentinel) \<longrightarrow> map_of doc ''director'' = Some PNone)
       \<and> map_of doc ''imdb_rating'' \<noteq> Some (PStr sentinel)
       \<and> map_of doc ''description'' \<noteq> Some (PStr sentinel)
       \<and> map_of doc ''director'' \<noteq> Some (PStr sentinel)
       \<and> (\<forall>d. map_of row ''director'' = Some (PStr d) \<and> d \<noteq> sentinel
            \<longrightarrow> map_of doc ''director''
                  = Some (PList (map (\<lambda>x. PStr (str_strip x)) (str_split (CHR '','') d))))"
proof -
  from tr obtain rating imdb dir director plot where
    r: "map_of row ''imdb_rating'' = Some rating"
    and i: "(if rating \<noteq> PStr sentinel then ebind (F rating) (\<lambda>f. Inr (PFloat f)) else Inr PNone)
             = Inr imdb"
    and d: "map_of row ''director'' = Some dir"
    and dd: "(if dir \<noteq> PStr sentinel
      then ebind (method_split dir (CHR '','')) (\<lambda>ds. Inr (PList (map (\<lambda>x. PStr (str_strip x)) ds)))
      else Inr PNone) = Inr director"
    and p: "map_of row ''plot'' = Some plot"
    and doc: "map_of doc ''imdb_rating'' = Some imdb" "map_of doc ''director'' = Some director"
      "map_of doc ''description'' = Some (if plot \<noteq> PStr sentinel then plot else PNone)"
    by (rule transform_row_Inr) simp
  from i have imdb: "imdb = PNone \<or> (\<exists>f. imdb = PFloat f)" "rating = PStr sentinel \<longrightarrow> imdb = PNone"
    by (auto simp: ebind_Inr_iff split: if_splits)
  from dd have director: "director = PNone \<or> (\<exists>xs. director = PList xs)"
    "dir = PStr sentinel \<longrightarrow> director = PNone"
    "\<forall>s. dir = PStr s \<and> s \<noteq> sentinel
       \<longrightarrow> director = PList (map (\<lambda>x. PStr (str_strip x)) (str_split (CHR '','') s))"
    by (auto simp: ebind_Inr_iff method_split_Inr_iff split: if_splits)
  show ?thesis
    using r d p doc imdb director by auto
qed

theorem sentinel_scalars_witness:
  "(\<exists>doc. transform_row example_loads example_float example_row_na example_directory = Inr doc
       \<and> map_of doc ''imdb_rating'' = Some PNone
       \<and> map_of doc ''description'' = Some PNone
       \<and> map_of doc ''director'' = Some PNone)
   \<and> (\<exists>doc. transform_row example_loads example_float example_row_directors example_directory
                = Inr doc
       \<and> map_of doc ''director'' = Some (PList [PStr ''Name1'', PStr ''Name2'']))"
proof -
  obtain doc where
    tr: "transform_row example_loads example_float example_row_na example_directory = Inr doc"
    by (simp add: example_defs more_example_defs model_defs)
  have "map_of example_row_na ''imdb_rating'' = Some (PStr sentinel)"
    "map_of example_row_na ''plot'' = Some (PStr sentinel)"
    "map_of example_row_na ''director'' = Some (PStr sentinel)"
    by (simp_all add: example_defs more_example_defs sentinel_def)
  with sentinel_scalars_become_null [OF tr]
  have "map_of doc ''imdb_rating'' = Some PNone \<and> map_of doc ''description'' = Some PNone
       \<and> map_of doc ''director'' = Some PNone"
    by blast
  with tr have one: "\<exists>doc.
      transform_row example_loads example_float example_row_na example_directory = Inr doc
       \<and> map_of doc ''imdb_rating'' = Some PNone
       \<and> map_of doc ''description'' = Some PNone
       \<and> map_of doc ''director'' = Some PNone"
    by blast
  obtain doc' where
    tr': "transform_row example_loads example_float example_row_directors example_directory
            = Inr doc'"
    by (simp add: example_defs more_example_defs model_defs)
  have d: "map_of example_row_directors ''director'' = Some (PStr ''Name1, Name2'')
           \<and> ''Name1, Name2'' \<noteq> sentinel"
    by (simp add: example_defs more_example_defs sentinel_def)
  from sentinel_scalars_become_null [OF tr'] d
  have "map_of doc' ''director''
          = Some (PList (map (\<lambda>x. PStr (str_strip x)) (str_split (CHR '','') ''Name1, Name2'')))"
    by blast
  then have "map_of doc' ''director'' = Some (PList [PStr ''Name1'', PStr ''Name2''])"
    by (simp add: str_strip_def py_isspace_def)
  with tr' have two: "\<exists>doc.
      transform_row example_loads example_float example_row_directors example_directory = Inr doc
       \<and> map_of doc ''director'' = Some (PList [PStr ''Name1'', PStr ''Name2''])"
    by blast
  show ?thesis using one two by (rule conjI)
qed

subsection \<open>The genre\<close>

text \<open>
  C7, as the code has it. In the document of a row, \<open>genre\<close> is the genre string with
  every space character (U+0020) removed, split at the commas. Joining the pieces with
  commas gives that string back, so the order and the duplicates of the pieces are those
  of the source. Other whitespace (a tab, a line break) stays in the pieces: the row
  whose genre is \<open>Action,\<close> followed by a tab and \<open>Drama\<close> keeps the tab in its
  second genre.
\<close>
theorem genre_spaces_removed_then_split:
  assumes tr: "transform_row L F row writers = Inr doc"
  shows "\<exists>g. map_of row ''genre'' = Some (PStr g)
           \<and> map_of doc ''genre''
               = Some (PList (map PStr (str_split (CHR '','') (filter (\<lambda>c. c \<noteq> CHR '' '') g))))
           \<and> str_join '','' (str_split (CHR '','') (filter (\<lambda>c. c \<noteq> CHR '' '') g))
               = filter (\<lambda>c. c \<noteq> CHR '' '') g"
proof -
  from tr obtain g g' where g: "map_of row ''genre'' = Some g"
    and r: "method_replace g (CHR '' '') [] = Inr g'"
    and d: "map_of doc ''genre'' = Some (PList (map PStr (str_split (CHR '','') g')))"
    by (rule transform_row_Inr) simp
  from r obtain s where "g = PStr s" "g' = filter (\<lambda>c. c \<noteq> CHR '' '') s"
    by (auto simp: method_replace_Inr_iff str_replace_space)
  with g d show ?thesis by (auto simp: str_join_split)
qed

theorem genre_spaces_removed_witness:
  "\<exists>doc. transform_row example_loads example_float example_row example_directory = Inr doc
       \<and> map_of doc ''genre'' = Some (PList [PStr ''Action'', PStr ''Drama''])"
proof -
  obtain doc where
    tr: "transform_row example_loads example_float example_row example_directory = Inr doc"
    by (simp add: example_defs model_defs)
  from genre_spaces_removed_then_split [OF tr] obtain g where
    g: "map_of example_row ''genre'' = Some (PStr g)"
    and d: "map_of doc ''genre''
              = Some (PList (map PStr (str_split (CHR '','') (filter (\<lambda>c. c \<noteq> CHR '' '') g))))"
    by blast
  from g have "g = ''Action, Drama''" by (simp add: example_defs)
  with d have "map_of doc ''genre'' = Some (PList [PStr ''Action'', PStr ''Drama''])" by simp
  with tr show ?thesis by blast
qed

theorem genre_all_whitespace_counterexample:
  "doc_field (transform_row example_loads example_float example_row_tab example_directory) ''genre''
     = Some (PList [PStr ''Action'', PStr (CHR 0x09 # ''Drama'')])
   \<and> doc_field (transform_row example_loads example_float example_row_tab example_directory) ''genre''
     \<noteq> Some (PList (map PStr (str_split (CHR '','') (strip_all_whitespace genre_tab))))"
  by (simp add: doc_field_def strip_all_whitespace_def example_defs more_example_defs model_defs)


lemma transform_actors_cases:
  assumes "transform_actors row = Inr (actors, actors_names)"
  shows "(map_of row ''actors_ids'' = Some PNone \<and> actors = [] \<and> actors_names = [])
       \<or> (\<exists>a. map_of row ''actors_ids'' = Some a \<and> a \<noteq> PNone
              \<and> map_of row ''actors_names'' = Some PNone \<and> actors = [] \<and> actors_names = [])
       \<or> (\<exists>ids names. map_of row ''actors_ids'' = Some (PStr ids)
              \<and> map_of row ''actors_names'' = Some (PStr names)
              \<and> actors = map actor_dict
                  (filter (\<lambda>p. snd p \<noteq> sentinel)
                     (zip (str_split (CHR '','') ids) (str_split (CHR '','') names)))
              \<and> actors_names = filter (\<lambda>x. x \<noteq> sentinel) (str_split (CHR '','') names))"
  using assms unfolding transform_actors_def
  by (auto simp: ebind_Inr_iff getitem_Inr_iff method_split_Inr_iff split: if_splits)


lemma filter_zip_snd_take:
  "map snd (filter (\<lambda>p. P (snd p)) (zip xs ys)) = filter P (take (length xs) ys)"
proof (induction xs arbitrary: ys)
  case Nil
  show ?case by simp
next
  case (Cons x xs)
  then show ?case by (cases ys) simp_all
qed

lemma length_filter_take_le: "length (filter P (take n ys)) \<le> length (filter P ys)"
proof -
  have "filter P ys = filter P (take n ys) @ filter P (drop n ys)"
    by (metis append_take_drop_id filter_append)
  then show ?thesis by simp
qed

subsection \<open>Actors\<close>



text \<open>
  C10. In the document of a row whose \<open>actors_ids\<close> and \<open>actors_names\<close> are not null,
  whatever the lengths of the two splits, \<open>actors\<close> is no longer than \<open>actors_names\<close>:
  \<open>actors\<close> is the filtered zip, which has as many elements as the filtered names among
  the first \<open>length ids\<close> names, while \<open>actors_names\<close> is the filter of all the names.
\<close>
theorem actors_no_longer_than_actors_names:
  assumes tr: "transform_row L F row writers = Inr doc"
    and ids: "map_of row ''actors_ids'' = Some a" "a \<noteq> PNone"
    and names: "map_of row ''actors_names'' = Some n" "n \<noteq> PNone"
  shows "\<exists>idl nml actors actors_names.
           a = PStr idl \<and> n = PStr nml
         \<and> map_of doc ''actors'' = Some (PList actors)
         \<and> map_of doc ''actors_names'' = Some (PList actors_names)
         \<and> length actors \<le> length actors_names
         \<and> actors = map actor_dict
             (filter (\<lambda>p. snd p \<noteq> sentinel)
                (zip (str_split (CHR '','') idl) (str_split (CHR '','') nml)))
         \<and> length actors
             = length (filter (\<lambda>x. x \<noteq> sentinel)
                 (take (length (str_split (CHR '','') idl)) (str_split (CHR '','') nml)))
         \<and> actors_names = map PStr (filter (\<lambda>x. x \<noteq> sentinel) (str_split (CHR '','') nml))"
proof -
  from tr obtain actors actors_names where
    ta: "transform_actors row = Inr (actors, actors_names)"
    and da: "map_of doc ''actors'' = Some (PList actors)"
    and dn: "map_of doc ''actors_names'' = Some (PList (map PStr actors_names))"
    by (rule transform_row_Inr) simp
  from transform_actors_cases [OF ta] ids names obtain idl nml where
    a: "a = PStr idl" and n: "n = PStr nml"
    and act: "actors = map actor_dict
                (filter (\<lambda>p. snd p \<noteq> sentinel)
                   (zip (str_split (CHR '','') idl) (str_split (CHR '','') nml)))"
    and nms: "actors_names = filter (\<lambda>x. x \<noteq> sentinel) (str_split (CHR '','') nml)"
    by auto
  have "length actors = length (map snd (filter (\<lambda>p. snd p \<noteq> sentinel)
                   (zip (str_split (CHR '','') idl) (str_split (CHR '','') nml))))"
    by (simp add: act)
  also have "\<dots> = length (filter (\<lambda>x. x \<noteq> sentinel)
                 (take (length (str_split (CHR '','') idl)) (str_split (CHR '','') nml)))"
    by (simp only: filter_zip_snd_take [where P = "\<lambda>x. x \<noteq> sentinel"])
  finally have len: "length actors = length (filter (\<lambda>x. x \<noteq> sentinel)
                 (take (length (str_split (CHR '','') idl)) (str_split (CHR '','') nml)))" .
  have le: "length actors \<le> length (map PStr actors_names)"
    unfolding len nms length_map by (rule length_filter_take_le)
  show ?thesis
  proof (intro exI conjI)
    show "a = PStr idl" by (rule a)
    show "n = PStr nml" by (rule n)
    show "map_of doc ''actors'' = Some (PList actors)" by (rule da)
    show "map_of doc ''actors_names'' = Some (PList (map PStr actors_names))" by (rule dn)
    show "length actors \<le> length (map PStr actors_names)" by (rule le)
    show "actors = map actor_dict
             (filter (\<lambda>p. snd p \<noteq> sentinel)
                (zip (str_split (CHR '','') idl) (str_split (CHR '','') nml)))" by (rule act)
    show "length actors
             = length (filter (\<lambda>x. x \<noteq> sentinel)
                 (take (length (str_split (CHR '','') idl)) (str_split (CHR '','') nml)))"
      by (rule len)
    show "map PStr actors_names
            = map PStr (filter (\<lambda>x. x \<noteq> sentinel) (str_split (CHR '','') nml))"
      by (simp only: nms)
  qed
qed

theorem actors_no_longer_witness:
  "\<exists>doc actors actors_names.
      transform_row example_loads example_float example_row_uneven example_directory = Inr doc
    \<and> map_of doc ''actors'' = Some (PList actors)
    \<and> map_of doc ''actors_names'' = Some (PList actors_names)
    \<and> length actors = 1 \<and> length actors_names = 2"
proof -
  obtain doc where
    tr: "transform_row example_loads example_float example_row_uneven example_directory = Inr doc"
    by (simp add: example_defs more_example_defs model_defs)
  have a: "map_of example_row_uneven ''actors_ids'' = Some (PStr ''a1'')"
    and n: "map_of example_row_uneven ''actors_names'' = Some (PStr ''Bob,N/A,Ann'')"
    by (simp_all add: example_defs more_example_defs)
  from actors_no_longer_than_actors_names [OF tr a _ n]
  obtain idl nml actors actors_names where
    "PStr ''a1'' = PStr idl" "PStr ''Bob,N/A,Ann'' = PStr nml"
    and d: "map_of doc ''actors'' = Some (PList actors)"
      "map_of doc ''actors_names'' = Some (PList actors_names)"
    and "actors = map actor_dict
             (filter (\<lambda>p. snd p \<noteq> sentinel)
                (zip (str_split (CHR '','') idl) (str_split (CHR '','') nml)))"
      "actors_names = map PStr (filter (\<lambda>x. x \<noteq> sentinel) (str_split (CHR '','') nml))"
    by auto
  then have "length actors = 1 \<and> length actors_names = 2" by (auto simp: sentinel_def)
  with tr d show ?thesis by blast
qed


section \<open>Properties of the bulk indexing client\<close>





lemma bulk_query_loop_total:
  "list_all2 (\<lambda>row p. \<exists>rid. map_of row ''id'' = Some rid
                              \<and> D (index_action idx rid) = Inr (fst p)
                              \<and> D (PDict row) = Inr (snd p)) rows pairs \<Longrightarrow>
   bulk_query_loop D idx rows acc = Inr (acc @ concat (map (\<lambda>p. [fst p, snd p]) pairs))"
proof (induction rows pairs arbitrary: acc rule: list_all2_induct)
  case Nil
  show ?case by simp
next
  case (Cons row rows p pairs)
  then show ?case by (auto simp: getitem_def)
qed



lemma items_loop_logs:
  "list_all2 (\<lambda>item em. item_error item = Inr em) items ems \<Longrightarrow>
   items_loop items lg = (Inr (), lg @ filter truthy ems)"
proof (induction items ems arbitrary: lg rule: list_all2_induct)
  case Nil
  show ?case by simp
next
  case (Cons item items em ems)
  from Cons.hyps(1) obtain ix where
    "subscript item ''index'' = Inr ix" "method_get ix ''error'' = Inr em"
    by (auto simp: item_error_def ebind_Inr_iff)
  then show ?case by (simp add: Cons.IH)
qed

lemma items_loop_fault:
  "items_loop items lg = (Inl e, lg') \<Longrightarrow> \<exists>item \<in> set items. \<exists>e'. item_error item = Inl e'"
proof (induction items arbitrary: lg)
  case Nil
  then show ?case by simp
next
  case (Cons item items)
  show ?case
  proof (cases "item_error item")
    case (Inl e')
    then show ?thesis by auto
  next
    case (Inr em)
    then obtain ix where "subscript item ''index'' = Inr ix" "method_get ix ''error'' = Inr em"
      by (auto simp: item_error_def ebind_Inr_iff)
    with Cons.prems have "\<exists>lg''. items_loop items lg'' = (Inl e, lg')"
      by (auto split: if_splits)
    with Cons.IH show ?thesis by auto
  qed
qed

text \<open>
  C9, as the code has it. Let the request be sent and answered, let the response parse to
  an object whose \<open>items\<close> iterate as \<open>items\<close>, and let every item carry an error
  value \<open>item['index'].get('error')\<close>, null when there is none. Then \<open>load_to_es\<close>
  raises nothing, walks all the items, and appends to the log exactly the error values
  that are truthy, one entry each, in the order of the items. (A non-null error that is
  falsy, such as an empty string, is not logged.)
\<close>
theorem item_errors_logged_not_raised:
  assumes body: "bulk_body D records index_name = Inr body"
    and post: "P body = Inr content"
    and resp: "L (PStr content) = Inr response"
    and its: "subscript response ''items'' = Inr its"
    and iter: "py_iter its = Inr items"
    and errs: "list_all2 (\<lambda>item em. item_error item = Inr em) items ems"
  shows "load_to_es D P L records index_name lg = (Inr (), lg @ filter truthy ems)"
proof -
  have "ebind (bulk_body D records index_name) P = Inr content"
    using body post by (simp add: ebind_def)
  moreover have "ebind (L (PStr content)) (\<lambda>json_response.
           ebind (subscript json_response ''items'') py_iter) = Inr items"
    using resp its iter by (simp add: ebind_def)
  ultimately have "load_to_es D P L records index_name lg = items_loop items lg"
    by (simp add: load_to_es_def handle_response_def)
  with items_loop_logs [OF errs] show ?thesis by simp
qed

theorem item_errors_logged_witness:
  "load_to_es example_dumps post_three_items response_loads example_records ''movies'' []
     = (Inr (), [example_error])
   \<and> list_all2 (\<lambda>item em. item_error item = Inr em) example_items [PNone, example_error, PNone]"
proof -
  have b: "bulk_body example_dumps example_records ''movies'' = Inr example_body"
    by (simp add: bulk_body_def get_es_bulk_query_def ebind_def getitem_def example_dumps_def
        table_dumps_def example_records_def example_body_def index_action_def)
  have p: "post_three_items example_body = Inr ''three items''" by (simp add: post_three_items_def)
  have r: "response_loads (PStr ''three items'') = Inr (PDict [(''items'', PList example_items)])"
    by (simp add: response_loads_def table_loads_def)
  have i: "subscript (PDict [(''items'', PList example_items)]) ''items'' = Inr (PList example_items)"
    by (simp add: subscript_def getitem_def)
  have it: "py_iter (PList example_items) = Inr example_items" by (simp add: py_iter_def)
  have e: "list_all2 (\<lambda>item em. item_error item = Inr em) example_items
             [PNone, example_error, PNone]"
    by (simp add: example_items_def item_error_def ebind_def subscript_def getitem_def
        method_get_def)
  have t: "filter truthy [PNone, example_error, PNone] = [example_error]"
    by (simp add: truthy_def example_error_def)
  from item_errors_logged_not_raised [where D = example_dumps and P = post_three_items
      and L = response_loads and lg = "[]", OF b p r i it e] t e
  show ?thesis by simp
qed

theorem non_null_error_not_logged_counterexample:
  "load_to_es example_dumps post_empty_error response_loads example_records ''movies'' []
     = (Inr (), [])
   \<and> item_error item_empty_error = Inr (PStr [])
   \<and> PStr [] \<noteq> PNone"
  by (simp add: load_to_es_def handle_response_def items_loop.simps bulk_body_def
      get_es_bulk_query_def ebind_def getitem_def example_dumps_def table_dumps_def
      example_records_def index_action_def post_empty_error_def response_loads_def
      table_loads_def subscript_def py_iter_def item_empty_error_def method_get_def truthy_def
      item_error_def)

section \<open>The connection\<close>

lemma conn_context_success:
  "connect = Inr u \<Longrightarrow> body (w\<lparr>conn_open := True\<rparr>) = (Inr v, w') \<Longrightarrow>
   conn_context connect body w = (Inr v, w'\<lparr>conn_open := False\<rparr>)"
  by (simp add: conn_context_def)

lemma conn_context_fault:
  "connect = Inr u \<Longrightarrow> body (w\<lparr>conn_open := True\<rparr>) = (Inl e, w') \<Longrightarrow>
   conn_context connect body w = (Inl e, w')"
  by (simp add: conn_context_def)

lemma load_keeps_conn: "load ext index_name w = (r, w') \<Longrightarrow> conn_open w' = conn_open w"
  by (auto simp: load_def split: sum.splits prod.splits)

lemma main_closes_on_success:
  "main ext w = (Inr v, w') \<Longrightarrow> conn_open w' = False"
  by (auto simp: main_def conn_context_def split: sum.splits prod.splits)

lemma main_no_movies:
  "main externals_no_movies world0 = (Inr (), \<lparr>conn_open = False, logged = [example_error]\<rparr>)"
  by (simp add: main_def conn_context_def load_def externals_no_movies_def world0_def
      load_to_es_def handle_response_def bulk_body_def get_es_bulk_query_def ebind_def
      post_three_items_def response_loads_def table_loads_def subscript_def getitem_def
      py_iter_def example_items_def method_get_def truthy_def example_error_def)

text \<open>
  C1 fails on the code. A run that completes closes the connection
  (\<open>main_closes_on_success\<close>); a run in which the body raises leaves it open, because
  \<open>conn.close()\<close> follows the \<open>yield\<close> without a \<open>try\<close>/\<open>finally\<close>. Here the only movie
  of the store names a writer id that the writers table does not hold: the run ends with
  the KeyError and the connection is still open.
\<close>

theorem connection_left_open_on_fault:
  "main externals_missing_writer world0 = (Inl KeyError, \<lparr>conn_open = True, logged = []\<rparr>)"
  by (simp add: main_def conn_context_def load_def externals_missing_writer_def world0_def
      example_defs more_example_defs model_defs)

end
